theory Spec2Isabelle
  imports Main "HOL-Library.Word"
begin

unbundle bit_operations_syntax

section \<open>Bytes, Python slices and hex encoding\<close>

type_synonym byte = "8 word"
type_synonym bytes = "byte list"

text \<open>
  Python clamps the bounds of a slice \<^verbatim>\<open>xs[i:j]\<close> to the sequence: a negative bound counts
  from the end and is clamped at 0, a non-negative one is clamped at the length. A slice never
  raises.
\<close>

definition py_index :: "nat \<Rightarrow> int \<Rightarrow> nat" where
  "py_index n i = (if i < 0 then nat (max 0 (int n + i)) else min (nat i) n)"

definition py_slice :: "'a list \<Rightarrow> int \<Rightarrow> int \<Rightarrow> 'a list" where
  "py_slice xs i j =
     (let lo = py_index (length xs) i; hi = py_index (length xs) j
      in take (hi - lo) (drop lo xs))"

definition py_slice_from :: "'a list \<Rightarrow> int \<Rightarrow> 'a list" where
  "py_slice_from xs i = drop (py_index (length xs) i) xs"

definition py_slice_to :: "'a list \<Rightarrow> int \<Rightarrow> 'a list" where
  "py_slice_to xs j = take (py_index (length xs) j) xs"

text \<open>\<^verbatim>\<open>bytes.hex()\<close> and \<^verbatim>\<open>hexdigest()\<close>: two lower-case hex digits per byte.\<close>

definition hex_digit :: "nat \<Rightarrow> char" where
  "hex_digit d = ''0123456789abcdef'' ! d"

definition hex_byte :: "byte \<Rightarrow> string" where
  "hex_byte b = [hex_digit (unat b div 16), hex_digit (unat b mod 16)]"

definition hexlify :: "bytes \<Rightarrow> string" where
  "hexlify bs = concat (map hex_byte bs)"

text \<open>A bytes literal such as \<^verbatim>\<open>b"abc"\<close>, and \<^verbatim>\<open>str.encode('utf-8')\<close> of a string that is
  held as its UTF-8 bytes.\<close>

definition encode_utf8 :: "string \<Rightarrow> bytes" where
  "encode_utf8 str = map of_char str"

section \<open>The library the code calls: hashlib, hmac, secrets\<close>

text \<open>
  The digests of \<^verbatim>\<open>hashlib.sha256\<close> and \<^verbatim>\<open>hashlib.sha512\<close> are byte strings of 32 and of 64
  bytes. The hash functions themselves are parameters of the development (the record
  \<open>lib\<close>): every theorem holds for any functions of these types.
\<close>

typedef digest32 = "{xs :: byte list. length xs = 32}"
  by (rule exI [of _ "replicate 32 0"]) simp

typedef digest64 = "{xs :: byte list. length xs = 64}"
  by (rule exI [of _ "replicate 64 0"]) simp

setup_lifting type_definition_digest32
setup_lifting type_definition_digest64

record lib =
  sha256 :: "bytes \<Rightarrow> digest32"
  sha512 :: "bytes \<Rightarrow> digest64"
  hmac_sha512 :: "bytes \<Rightarrow> bytes \<Rightarrow> digest64"

text \<open>
  What a call leaves behind: the log of the library calls made so far, and the position in
  the entropy the operating system hands to \<^verbatim>\<open>secrets.token_bytes\<close>. A function of the
  program takes the state and returns its result with the new state. The field \<open>clock\<close> is
  what \<^verbatim>\<open>datetime.now().isoformat()\<close> reads.
\<close>

datatype call =
    Sha256 bytes
  | Sha512 bytes
  | HmacSha512 bytes bytes
  | TokenBytes nat

record sys =
  calls :: "call list"
  entropy :: "nat \<Rightarrow> byte"
  cursor :: nat
  clock :: string

definition sha256_digest :: "lib \<Rightarrow> bytes \<Rightarrow> sys \<Rightarrow> bytes \<times> sys" where
  "sha256_digest L m s = (Rep_digest32 (sha256 L m), s\<lparr>calls := calls s @ [Sha256 m]\<rparr>)"

definition sha256_hexdigest :: "lib \<Rightarrow> bytes \<Rightarrow> sys \<Rightarrow> string \<times> sys" where
  "sha256_hexdigest L m s =
     (hexlify (Rep_digest32 (sha256 L m)), s\<lparr>calls := calls s @ [Sha256 m]\<rparr>)"

definition sha512_digest :: "lib \<Rightarrow> bytes \<Rightarrow> sys \<Rightarrow> bytes \<times> sys" where
  "sha512_digest L m s = (Rep_digest64 (sha512 L m), s\<lparr>calls := calls s @ [Sha512 m]\<rparr>)"

definition sha512_hexdigest :: "lib \<Rightarrow> bytes \<Rightarrow> sys \<Rightarrow> string \<times> sys" where
  "sha512_hexdigest L m s =
     (hexlify (Rep_digest64 (sha512 L m)), s\<lparr>calls := calls s @ [Sha512 m]\<rparr>)"

text \<open>\<^verbatim>\<open>hmac.new(key, msg, hashlib.sha512).digest()\<close>\<close>

definition hmac_digest :: "lib \<Rightarrow> bytes \<Rightarrow> bytes \<Rightarrow> sys \<Rightarrow> bytes \<times> sys" where
  "hmac_digest L key msg s =
     (Rep_digest64 (hmac_sha512 L key msg), s\<lparr>calls := calls s @ [HmacSha512 key msg]\<rparr>)"

text \<open>\<^verbatim>\<open>hmac.compare_digest(a, b)\<close> on two byte strings: equality, in constant time.\<close>

definition compare_digest :: "bytes \<Rightarrow> bytes \<Rightarrow> bool" where
  "compare_digest a b = (a = b)"

text \<open>\<^verbatim>\<open>secrets.token_bytes(n)\<close>: the next \<open>n\<close> bytes of entropy.\<close>

definition token_bytes :: "nat \<Rightarrow> sys \<Rightarrow> bytes \<times> sys" where
  "token_bytes n s =
     (map (entropy s) [cursor s ..< cursor s + n],
      s\<lparr>calls := calls s @ [TokenBytes n], cursor := cursor s + n\<rparr>)"

section \<open>Errors\<close>

text \<open>
  The source raises \<^verbatim>\<open>ValueError\<close> at each of its failure sites; the sites are told apart
  here by the kind of failure:
  \<^item> \<open>InvalidKeyMaterial\<close>: the four raises of \<^verbatim>\<open>SecurityCore._validate_hardware_keys\<close>;
  \<^item> \<open>FingerprintMismatch\<close>: the raise of \<^verbatim>\<open>SecurityCore.unprotect_data\<close>;
  \<^item> \<open>AuthenticationFailure\<close>: the raise of \<^verbatim>\<open>EncryptionEngine.decrypt\<close>;
  \<^item> \<open>TamperDetected\<close>: the raise of \<^verbatim>\<open>CanaryTokenManager.verify_and_extract\<close>;
  \<^item> \<open>CorruptedPayload\<close>: the decrypted bytes do not parse;
  \<^item> \<open>OverflowError\<close>: \<^verbatim>\<open>int.to_bytes(8, 'big')\<close> of a counter that needs more than 8 bytes;
  \<^item> \<open>MissingMetadata\<close>: a metadata entry the reconstruction reads is absent.
\<close>

datatype error =
    InvalidKeyMaterial
  | FingerprintMismatch
  | AuthenticationFailure
  | TamperDetected
  | CorruptedPayload
  | OverflowError
  | MissingMetadata

section \<open>core/canary\_tokens.py: CanaryTokenManager\<close>

text \<open>The two attributes \<^verbatim>\<open>__init__\<close> sets.\<close>

definition token_size :: nat where
  "token_size = 16"

definition num_tokens :: nat where
  "num_tokens = 3"

text \<open>\<^verbatim>\<open>[secrets.token_bytes(self.token_size) for _ in range(n)]\<close>\<close>

fun gen_canaries :: "nat \<Rightarrow> sys \<Rightarrow> bytes list \<times> sys" where
  "gen_canaries 0 s = ([], s)"
| "gen_canaries (Suc n) s =
     (let (c, s1) = token_bytes token_size s;
          (cs, s2) = gen_canaries n s1
      in (c # cs, s2))"

definition split_chunks :: "bytes \<Rightarrow> bytes list" where
  "split_chunks data =
     (let chunk_size = length data div num_tokens
      in map (\<lambda>i. let start = i * chunk_size
                  in if i = num_tokens - 1 then py_slice_from data (int start)
                     else py_slice data (int start) (int (start + chunk_size)))
           [0..<num_tokens])"

definition interleave :: "bytes list \<Rightarrow> bytes list \<Rightarrow> bytes" where
  "interleave chunks canaries = concat (map (\<lambda>i. chunks ! i @ canaries ! i) [0..<num_tokens])"

definition inject_tokens :: "lib \<Rightarrow> bytes \<Rightarrow> sys \<Rightarrow> (bytes \<times> bytes) \<times> sys" where
  "inject_tokens L data s =
     (let (canaries, s1) = gen_canaries num_tokens s;
          chunks = split_chunks data;
          result = interleave chunks canaries;
          (verification, s2) = sha256_digest L (concat canaries) s1
      in ((result, verification), s2))"

text \<open>One round of the extraction loop: the chunks, the canaries and the offset so far.\<close>

fun extract_step ::
  "bytes \<Rightarrow> int \<Rightarrow> int \<Rightarrow> bytes list \<times> bytes list \<times> int \<Rightarrow> nat \<Rightarrow> bytes list \<times> bytes list \<times> int"
where
  "extract_step d original_length chunk_size (chunks, canaries, offset) i =
     (let (chunks1, offset1) =
            (if i = num_tokens - 1 then
               let remaining = original_length - chunk_size * (int num_tokens - 1)
               in (chunks @ [py_slice d offset (offset + remaining)], offset + remaining)
             else (chunks @ [py_slice d offset (offset + chunk_size)], offset + chunk_size))
      in (chunks1,
          canaries @ [py_slice d offset1 (offset1 + int token_size)],
          offset1 + int token_size))"

definition extract_loop :: "bytes \<Rightarrow> int \<Rightarrow> bytes list \<times> bytes list \<times> int" where
  "extract_loop d original_length =
     foldl (extract_step d original_length (original_length div int num_tokens))
       ([], [], 0) [0..<num_tokens]"

definition verify_and_extract ::
  "lib \<Rightarrow> bytes \<Rightarrow> bytes \<Rightarrow> int \<Rightarrow> sys \<Rightarrow> (error + bytes) \<times> sys"
where
  "verify_and_extract L d verification original_length s =
     (let (chunks, canaries, offset) = extract_loop d original_length;
          (computed_verification, s1) = sha256_digest L (concat canaries) s
      in if \<not> compare_digest verification computed_verification
         then (Inl TamperDetected, s1)
         else (Inr (concat chunks), s1))"

text \<open>
  The tokens at their fixed stride, as the specification describes them: with
  \<open>c = original_length div 3\<close>, the 16 bytes after each of the three chunks, which are
  \<open>c\<close>, \<open>c\<close> and \<open>original_length - 2 * c\<close> bytes long.
\<close>

definition stride_tokens :: "bytes \<Rightarrow> int \<Rightarrow> bytes list" where
  "stride_tokens d n =
     (let c = n div 3
      in [py_slice d c (c + 16),
          py_slice d (2 * c + 16) (2 * c + 32),
          py_slice d (n + 32) (n + 48)])"

section \<open>core/encryption\_engine.py: EncryptionEngine\<close>

definition nonce_size :: nat where
  "nonce_size = 16"

definition hmac_size :: nat where
  "hmac_size = 64"

text \<open>\<^verbatim>\<open>counter.to_bytes(8, 'big')\<close>: raises \<^verbatim>\<open>OverflowError\<close> from \<open>2 ^ 64\<close> on.\<close>

definition to_bytes8 :: "nat \<Rightarrow> error + bytes" where
  "to_bytes8 n =
     (if n < 2 ^ 64 then Inr (map (\<lambda>i. of_nat (n div 256 ^ (7 - i))) [0..<8])
      else Inl OverflowError)"

definition compute_hmac :: "lib \<Rightarrow> bytes \<Rightarrow> bytes \<Rightarrow> sys \<Rightarrow> bytes \<times> sys" where
  "compute_hmac L data key s = hmac_digest L key data s"

definition verify_hmac :: "lib \<Rightarrow> bytes \<Rightarrow> bytes \<Rightarrow> bytes \<Rightarrow> sys \<Rightarrow> bool \<times> sys" where
  "verify_hmac L data key tag s =
     (let (expected, s1) = compute_hmac L data key s
      in (compare_digest expected tag, s1))"

text \<open>The \<^verbatim>\<open>while len(keystream) < length\<close> loop of \<^verbatim>\<open>_generate_keystream\<close>.\<close>

function keystream_loop ::
  "lib \<Rightarrow> bytes \<Rightarrow> bytes \<Rightarrow> nat \<Rightarrow> bytes \<Rightarrow> nat \<Rightarrow> sys \<Rightarrow> (error + bytes) \<times> sys"
where
  "keystream_loop L key nonce len keystream counter s =
     (if length keystream < len then
        (case to_bytes8 counter of
           Inl e \<Rightarrow> (Inl e, s)
         | Inr counter_bytes \<Rightarrow>
             keystream_loop L key nonce len
               (keystream @ fst (hmac_digest L key (nonce @ counter_bytes) s))
               (counter + 1)
               (snd (hmac_digest L key (nonce @ counter_bytes) s)))
      else (Inr keystream, s))"
  by pat_completeness auto
termination
  by (relation "measure (\<lambda>(L, key, nonce, len, keystream, counter, s). len - length keystream)")
     (use Rep_digest64 in \<open>auto simp: hmac_digest_def\<close>)

declare keystream_loop.simps [simp del]

definition generate_keystream ::
  "lib \<Rightarrow> bytes \<Rightarrow> bytes \<Rightarrow> nat \<Rightarrow> sys \<Rightarrow> (error + bytes) \<times> sys"
where
  "generate_keystream L key nonce len s =
     (case keystream_loop L key nonce len [] 0 s of
        (Inl e, s1) \<Rightarrow> (Inl e, s1)
      | (Inr keystream, s1) \<Rightarrow> (Inr (py_slice_to keystream (int len)), s1))"

definition aes_ctr_encrypt ::
  "lib \<Rightarrow> bytes \<Rightarrow> bytes \<Rightarrow> bytes \<Rightarrow> sys \<Rightarrow> (error + bytes) \<times> sys"
where
  "aes_ctr_encrypt L data key nonce s =
     (case generate_keystream L key nonce (length data) s of
        (Inl e, s1) \<Rightarrow> (Inl e, s1)
      | (Inr keystream, s1) \<Rightarrow>
          (Inr (map (\<lambda>(i, byte). byte XOR keystream ! i) (enumerate 0 data)), s1))"

definition aes_ctr_decrypt ::
  "lib \<Rightarrow> bytes \<Rightarrow> bytes \<Rightarrow> bytes \<Rightarrow> sys \<Rightarrow> (error + bytes) \<times> sys"
where
  "aes_ctr_decrypt L data key nonce s = aes_ctr_encrypt L data key nonce s"

definition encrypt ::
  "lib \<Rightarrow> bytes \<Rightarrow> bytes \<Rightarrow> bytes \<Rightarrow> bytes option \<Rightarrow> sys
     \<Rightarrow> (error + bytes \<times> bytes \<times> bytes) \<times> sys"
where
  "encrypt L plaintext encryption_key authentication_key nonce_arg s =
     (let (nonce, s1) =
            (case nonce_arg of None \<Rightarrow> token_bytes nonce_size s | Some n \<Rightarrow> (n, s))
      in case aes_ctr_encrypt L plaintext encryption_key nonce s1 of
           (Inl e, s2) \<Rightarrow> (Inl e, s2)
         | (Inr ciphertext, s2) \<Rightarrow>
             (let (hmac_tag, s3) = compute_hmac L ciphertext authentication_key s2
              in (Inr (ciphertext, nonce, hmac_tag), s3)))"

definition decrypt ::
  "lib \<Rightarrow> bytes \<Rightarrow> bytes \<Rightarrow> bytes \<Rightarrow> bytes \<Rightarrow> bytes \<Rightarrow> sys \<Rightarrow> (error + bytes) \<times> sys"
where
  "decrypt L ciphertext encryption_key authentication_key nonce hmac_tag s =
     (let (ok, s1) = verify_hmac L ciphertext authentication_key hmac_tag s
      in if \<not> ok then (Inl AuthenticationFailure, s1)
         else aes_ctr_decrypt L ciphertext encryption_key nonce s1)"

section \<open>core/fragmenter.py: DataFragmenter\<close>

definition fragment_b_size :: nat where
  "fragment_b_size = 32"

definition create_fragment_b :: "lib \<Rightarrow> bytes \<Rightarrow> bytes \<Rightarrow> bytes \<Rightarrow> sys \<Rightarrow> bytes \<times> sys" where
  "create_fragment_b L fragment_a ic_key phone_key s =
     (let (hash_a, s1) = sha512_digest L fragment_a s;
          (hash_ic, s2) = sha512_digest L ic_key s1;
          (hash_phone, s3) = sha512_digest L phone_key s2;
          binding_data = hash_a @ hash_ic @ hash_phone;
          (digest, s4) = sha512_digest L binding_data s3
      in (py_slice_to digest (int fragment_b_size), s4))"

definition verify_fragment_binding ::
  "lib \<Rightarrow> bytes \<Rightarrow> bytes \<Rightarrow> bytes \<Rightarrow> bytes \<Rightarrow> sys \<Rightarrow> bool \<times> sys"
where
  "verify_fragment_binding L fragment_a fragment_b ic_key phone_key s =
     (let (expected_b, s1) = create_fragment_b L fragment_a ic_key phone_key s
      in (fragment_b = expected_b, s1))"

definition compute_merkle_root :: "lib \<Rightarrow> bytes \<Rightarrow> bytes \<Rightarrow> sys \<Rightarrow> string \<times> sys" where
  "compute_merkle_root L fragment_a fragment_b s =
     (let (hash_a, s1) = sha512_digest L fragment_a s;
          (hash_b, s2) = sha512_digest L fragment_b s1;
          combined = hash_a @ hash_b;
          (first_hash, s3) = sha512_digest L combined s2
      in sha512_hexdigest L first_hash s3)"

definition verify_merkle_root :: "lib \<Rightarrow> bytes \<Rightarrow> bytes \<Rightarrow> string \<Rightarrow> sys \<Rightarrow> bool \<times> sys" where
  "verify_merkle_root L fragment_a fragment_b expected_root s =
     (let (computed_root, s1) = compute_merkle_root L fragment_a fragment_b s
      in (computed_root = expected_root, s1))"

section \<open>core/ecc\_hardware\_manager.py: ECCHardwareManager\<close>

definition key_size :: nat where
  "key_size = 32"

definition hkdf_derive :: "lib \<Rightarrow> bytes \<Rightarrow> bytes \<Rightarrow> bytes \<Rightarrow> sys \<Rightarrow> bytes \<times> sys" where
  "hkdf_derive L input_material salt info s =
     (let (prk, s1) = sha256_digest L (salt @ input_material) s;
          (okm, s2) = sha256_digest L (prk @ info @ [0x01]) s1
      in (py_slice_to okm (int key_size), s2))"

definition ic_salt :: bytes where
  "ic_salt = encode_utf8 ''OBSIDIAN_IC_CARD_KEY_V1''"

definition phone_salt :: bytes where
  "phone_salt = encode_utf8 ''OBSIDIAN_PHONE_KEY_V1''"

definition derive_keys_from_public ::
  "lib \<Rightarrow> bytes \<Rightarrow> bytes \<Rightarrow> string \<Rightarrow> sys \<Rightarrow> (bytes \<times> bytes) \<times> sys"
where
  "derive_keys_from_public L card_public_key phone_public_key did s =
     (let (ic_key, s1) = hkdf_derive L card_public_key ic_salt (encode_utf8 did) s;
          (phone_key, s2) = hkdf_derive L phone_public_key phone_salt (encode_utf8 did) s1
      in ((ic_key, phone_key), s2))"

definition generate_key_fingerprint :: "lib \<Rightarrow> bytes \<Rightarrow> bytes \<Rightarrow> sys \<Rightarrow> string \<times> sys" where
  "generate_key_fingerprint L ic_key phone_key s =
     (let combined = ic_key @ phone_key;
          (fingerprint_hash, s1) = sha256_hexdigest L combined s
      in (py_slice_to fingerprint_hash 16, s1))"

text \<open>\<^verbatim>\<open>bin(b).count('1')\<close>: the number of bits set in a byte.\<close>

definition bit_count :: "byte \<Rightarrow> nat" where
  "bit_count b = length (filter (bit b) [0..<8])"

text \<open>
  \<^verbatim>\<open>ECCHardwareManager.validate_hardware_keys\<close> returns a pair of a verdict and a message and
  never raises; the verdict is modelled. Its entropy is the number of set bits over
  \<open>32 * 8\<close>, a dyadic fraction, and the two bounds \<^verbatim>\<open>0.3\<close> and \<^verbatim>\<open>0.7\<close> are doubles strictly
  between two such fractions, so the comparisons are the exact ones on integers:
  \<open>e < 0.3\<close> is \<open>10 * bits < 3 * 256\<close> and \<open>e > 0.7\<close> is \<open>10 * bits > 7 * 256\<close>.
\<close>

definition key_bits :: "bytes \<Rightarrow> nat" where
  "key_bits key = sum_list (map bit_count key)"

definition ECCHardwareManager_validate_hardware_keys :: "bytes \<Rightarrow> bytes \<Rightarrow> bool" where
  "ECCHardwareManager_validate_hardware_keys ic_key phone_key =
     (if length ic_key \<noteq> 32 then False
      else if length phone_key \<noteq> 32 then False
      else if ic_key = replicate 32 0x00 then False
      else if phone_key = replicate 32 0x00 then False
      else if 10 * key_bits ic_key < 3 * (32 * 8) \<or> 10 * key_bits ic_key > 7 * (32 * 8) then False
      else if 10 * key_bits phone_key < 3 * (32 * 8) \<or> 10 * key_bits phone_key > 7 * (32 * 8)
        then False
      else True)"

section \<open>core/key\_derivation.py: SecurityCore\<close>

text \<open>The values of a metadata dictionary (\<^verbatim>\<open>Dict[str, Any]\<close>).\<close>

datatype mval =
    MStr string
  | MInt int
  | MBytes bytes
  | MBool bool
  | MStrs "string list"

type_synonym metadata = "string \<rightharpoonup> mval"

definition version :: string where
  "version = ''2.0-iron-vault''"

definition compliance :: "string list" where
  "compliance = [''PDPA-2010'', ''MAMPU'', ''FIPS-140-2'']"

definition SecurityCore_validate_hardware_keys :: "bytes \<Rightarrow> bytes \<Rightarrow> error + unit" where
  "SecurityCore_validate_hardware_keys ic_key phone_key =
     (if length ic_key \<noteq> 32 then Inl InvalidKeyMaterial
      else if length phone_key \<noteq> 32 then Inl InvalidKeyMaterial
      else if ic_key = replicate 32 0x00 then Inl InvalidKeyMaterial
      else if phone_key = replicate 32 0x00 then Inl InvalidKeyMaterial
      else Inr ())"

text \<open>
  \<^verbatim>\<open>protect_data\<close> and \<^verbatim>\<open>unprotect_data\<close> call three functions of the module
  \<^verbatim>\<open>data_fragmentation_advanced\<close>. The two pipelines, \<^verbatim>\<open>split_into_fragments_advanced\<close> and
  \<^verbatim>\<open>reconstruct_data_advanced\<close>, are parameters here (\<open>split\<close> and \<open>reconstruct\<close>);
  \<^verbatim>\<open>generate_key_fingerprint\<close> is the function of that name of \<^verbatim>\<open>ECCHardwareManager\<close>.
\<close>

type_synonym 'r split_fun =
  "'r \<Rightarrow> bytes \<Rightarrow> bytes \<Rightarrow> bool \<Rightarrow> bool \<Rightarrow> int \<Rightarrow> sys
     \<Rightarrow> (error + bytes \<times> bytes \<times> string \<times> metadata) \<times> sys"

type_synonym 'r reconstruct_fun =
  "bytes \<Rightarrow> bytes \<Rightarrow> bytes \<Rightarrow> bytes \<Rightarrow> metadata \<Rightarrow> bool \<Rightarrow> sys \<Rightarrow> (error + 'r) \<times> sys"

definition protect_data ::
  "lib \<Rightarrow> 'r split_fun \<Rightarrow> 'r \<Rightarrow> bytes \<Rightarrow> bytes \<Rightarrow> bool \<Rightarrow> bool \<Rightarrow> int \<Rightarrow> sys
     \<Rightarrow> (error + bytes \<times> bytes \<times> string \<times> metadata) \<times> sys"
where
  "protect_data L split data ic_key phone_key enable_anti_tampering enable_time_lock
       time_lock_duration s =
     (case SecurityCore_validate_hardware_keys ic_key phone_key of
        Inl e \<Rightarrow> (Inl e, s)
      | Inr _ \<Rightarrow>
          (let (key_fingerprint, s1) = generate_key_fingerprint L ic_key phone_key s
           in case split data ic_key phone_key enable_anti_tampering enable_time_lock
                     time_lock_duration s1 of
                (Inl e, s2) \<Rightarrow> (Inl e, s2)
              | (Inr (fragment_a, fragment_b, merkle_root, metadata), s2) \<Rightarrow>
                  (Inr (fragment_a, fragment_b, merkle_root,
                        metadata(''security_core_version'' \<mapsto> MStr version,
                                 ''key_fingerprint'' \<mapsto> MStr key_fingerprint,
                                 ''protection_timestamp'' \<mapsto> MStr (clock s2),
                                 ''compliance_standards'' \<mapsto> MStrs compliance)),
                   s2)))"

definition unprotect_data ::
  "lib \<Rightarrow> 'r reconstruct_fun \<Rightarrow> bytes \<Rightarrow> bytes \<Rightarrow> bytes \<Rightarrow> bytes \<Rightarrow> metadata \<Rightarrow> bool \<Rightarrow> sys
     \<Rightarrow> (error + 'r) \<times> sys"
where
  "unprotect_data L reconstruct fragment_a fragment_b ic_key phone_key metadata skip_time_lock s =
     (case SecurityCore_validate_hardware_keys ic_key phone_key of
        Inl e \<Rightarrow> (Inl e, s)
      | Inr _ \<Rightarrow>
          (let stored_fingerprint = metadata ''key_fingerprint'';
               (current_fingerprint, s1) = generate_key_fingerprint L ic_key phone_key s
           in if stored_fingerprint \<noteq> Some (MStr current_fingerprint)
              then (Inl FingerprintMismatch, s1)
              else reconstruct fragment_a fragment_b ic_key phone_key metadata skip_time_lock s1))"

section \<open>The pipelines of data\_fragmentation\_advanced\<close>

text \<open>
  What the pipelines take from their surroundings: the canonical serialisation of a record
  and its parser (\<open>None\<close> when the bytes do not parse), and the fixed convention that gives
  the encryption key and the authentication key from the two hardware keys.
\<close>

record 'r codec =
  dumps :: "'r \<Rightarrow> bytes"
  loads :: "bytes \<Rightarrow> 'r option"
  session_keys :: "bytes \<Rightarrow> bytes \<Rightarrow> bytes \<times> bytes"

definition algorithm_tag :: string where
  "algorithm_tag = ''AES-256-CTR+HMAC-SHA512''"

text \<open>
  Modelled from the spec: \<^verbatim>\<open>split_into_fragments_advanced\<close> of the module
  \<^verbatim>\<open>data_fragmentation_advanced\<close>, which is not among the sources. The steps are those of
  \<open>protect\<close> in section 4.5 of the specification: serialise the record, inject the canaries,
  encrypt, split into Fragment A (nonce, then tag, then ciphertext), bind Fragment B, compute
  the commitment, and record the canary count, the original size, the fragment sizes and the
  algorithm tag in the metadata. The specification does not say where the verification value
  of the canaries is kept until \<open>unprotect\<close>; it is kept in the metadata, which travels with
  the fragments. The options are not described by the specification and are not read.
\<close>

definition split_into_fragments_advanced :: "lib \<Rightarrow> 'r codec \<Rightarrow> 'r split_fun" where
  "split_into_fragments_advanced L C data ic_key phone_key enable_anti_tampering enable_time_lock
       time_lock_duration s =
     (let payload = dumps C data;
          ((marked, verification), s1) = inject_tokens L payload s;
          (enc_key, mac_key) = session_keys C ic_key phone_key
      in case encrypt L marked enc_key mac_key None s1 of
           (Inl e, s2) \<Rightarrow> (Inl e, s2)
         | (Inr (ciphertext, nonce, tag), s2) \<Rightarrow>
             (let fragment_a = nonce @ tag @ ciphertext;
                  (fragment_b, s3) = create_fragment_b L fragment_a ic_key phone_key s2;
                  (merkle_root, s4) = compute_merkle_root L fragment_a fragment_b s3
              in (Inr (fragment_a, fragment_b, merkle_root,
                       [''algorithm'' \<mapsto> MStr algorithm_tag,
                        ''canary_count'' \<mapsto> MInt (int num_tokens),
                        ''canary_verification'' \<mapsto> MBytes verification,
                        ''original_size'' \<mapsto> MInt (int (length payload)),
                        ''fragment_a_size'' \<mapsto> MInt (int (length fragment_a)),
                        ''fragment_b_size'' \<mapsto> MInt (int (length fragment_b))]),
                  s4)))"

text \<open>
  Modelled from the spec: \<^verbatim>\<open>reconstruct_data_advanced\<close> of the module
  \<^verbatim>\<open>data_fragmentation_advanced\<close>, which is not among the sources. The steps are those of
  \<open>unprotect\<close> in section 4.5 of the specification after the fingerprint check: parse the
  nonce (16 bytes), the tag (64 bytes) and the ciphertext out of Fragment A, decrypt, extract
  the canaries, parse the record (\<open>CorruptedPayload\<close> when it does not parse).
\<close>

definition reconstruct_data_advanced :: "lib \<Rightarrow> 'r codec \<Rightarrow> 'r reconstruct_fun" where
  "reconstruct_data_advanced L C fragment_a fragment_b ic_key phone_key metadata skip_time_lock s =
     (let nonce = py_slice fragment_a 0 (int nonce_size);
          tag = py_slice fragment_a (int nonce_size) (int (nonce_size + hmac_size));
          ciphertext = py_slice_from fragment_a (int (nonce_size + hmac_size));
          (enc_key, mac_key) = session_keys C ic_key phone_key
      in case decrypt L ciphertext enc_key mac_key nonce tag s of
           (Inl e, s1) \<Rightarrow> (Inl e, s1)
         | (Inr marked, s1) \<Rightarrow>
             (case (metadata ''canary_verification'', metadata ''original_size'') of
                (Some (MBytes verification), Some (MInt original_size)) \<Rightarrow>
                  (case verify_and_extract L marked verification original_size s1 of
                     (Inl e, s2) \<Rightarrow> (Inl e, s2)
                   | (Inr payload, s2) \<Rightarrow>
                       (case loads C payload of
                          None \<Rightarrow> (Inl CorruptedPayload, s2)
                        | Some record \<Rightarrow> (Inr record, s2)))
              | _ \<Rightarrow> (Inl MissingMetadata, s1)))"

section \<open>A concrete library and state\<close>

text \<open>
  An instance of the library to run the definitions on: the digest of a message is the
  message cut or zero-padded to the digest size, the keyed digest that of the key followed
  by the message. The entropy is the sequence of the bytes 0, 1, 2, ...
\<close>

lift_definition pad32 :: "bytes \<Rightarrow> digest32" is "\<lambda>xs. take 32 (xs @ replicate 32 (0::byte))"
  by simp

lift_definition pad64 :: "bytes \<Rightarrow> digest64" is "\<lambda>xs. take 64 (xs @ replicate 64 (0::byte))"
  by simp

definition sample_lib :: lib where
  "sample_lib = \<lparr>sha256 = pad32, sha512 = pad64, hmac_sha512 = (\<lambda>key msg. pad64 (key @ msg))\<rparr>"

definition sample_sys :: sys where
  "sample_sys = \<lparr>calls = [], entropy = of_nat, cursor = 0, clock = ''2025-01-01T00:00:00''\<rparr>"

text \<open>A codec on texts: a record is its own serialisation, and the keys are used as given.\<close>

definition sample_codec :: "string codec" where
  "sample_codec =
     \<lparr>dumps = encode_utf8, loads = (\<lambda>bs. Some (map (\<lambda>b. char_of (unat b)) bs)),
      session_keys = (\<lambda>ic_key phone_key. (ic_key, phone_key))\<rparr>"

section \<open>Slices\<close>

lemma py_index_nonneg: "0 \<le> i \<Longrightarrow> py_index n i = min (nat i) n"
  by (simp add: py_index_def)

lemma py_slice_nonneg:
  "0 \<le> i \<Longrightarrow> 0 \<le> j \<Longrightarrow>
   py_slice xs i j =
     take (min (nat j) (length xs) - min (nat i) (length xs)) (drop (min (nat i) (length xs)) xs)"
  by (simp add: py_slice_def Let_def py_index_nonneg)

lemma length_Rep_digest32 [simp]: "length (Rep_digest32 d) = 32"
  using Rep_digest32 [of d] by simp

lemma length_Rep_digest64 [simp]: "length (Rep_digest64 d) = 64"
  using Rep_digest64 [of d] by simp

section \<open>The canary tokens\<close>

lemma gen_canaries_3:
  "gen_canaries 3 s = (cs, s') \<Longrightarrow>
   \<exists>a b c. cs = [a, b, c] \<and> length a = 16 \<and> length b = 16 \<and> length c = 16"
  by (auto simp: numeral_3_eq_3 token_bytes_def token_size_def Let_def split: prod.splits)

lemma split_chunks_eq:
  "split_chunks data =
     (let c = length data div 3 in [take c data, take c (drop c data), drop (2 * c) data])"
proof -
  have "2 * (length data div 3) \<le> length data"
    by simp
  then show ?thesis
    by (simp add: split_chunks_def num_tokens_def Let_def upt_rec py_slice_from_def
          py_slice_nonneg py_index_nonneg nat_mult_distrib)
qed

lemma extract_loop_eq:
  "extract_loop d n =
     (let c = n div 3
      in ([py_slice d 0 c, py_slice d (c + 16) (2 * c + 16), py_slice d (2 * c + 32) (n + 32)],
          stride_tokens d n, n + 48))"
  by (simp add: extract_loop_def num_tokens_def token_size_def upt_rec Let_def stride_tokens_def
        algebra_simps)

lemma interleaved_slices:
  fixes A a B b C t :: "'a list"
  assumes "length A = c" "length a = 16" "length B = c" "length b = 16" "length C = r"
    "length t = 16"
  defines "m \<equiv> A @ a @ B @ b @ C @ t"
  shows "py_slice m 0 (int c) = A"
    and "py_slice m (int c) (int c + 16) = a"
    and "py_slice m (int c + 16) (2 * int c + 16) = B"
    and "py_slice m (2 * int c + 16) (2 * int c + 32) = b"
    and "py_slice m (2 * int c + 32) (2 * int c + int r + 32) = C"
    and "py_slice m (2 * int c + int r + 32) (2 * int c + int r + 48) = t"
  using assms by (simp_all add: py_slice_nonneg nat_add_distrib nat_mult_distrib)

lemma inject_then_extract:
  assumes "inject_tokens L data s = ((marked, v), s1)"
  shows "fst (verify_and_extract L marked v (int (length data)) s2) = Inr data"
proof -
  define n where "n = length data"
  define c where "c = n div 3"
  obtain cs s' where g: "gen_canaries 3 s = (cs, s')"
    by force
  then obtain t0 t1 t2 where cs: "cs = [t0, t1, t2]"
    and l: "length t0 = 16" "length t1 = 16" "length t2 = 16"
    using gen_canaries_3 by blast
  have le: "2 * c \<le> n"
    by (simp add: c_def)
  have m: "marked = take c data @ t0 @ take c (drop c data) @ t1 @ drop (2 * c) data @ t2"
    and v: "v = Rep_digest32 (sha256 L (t0 @ t1 @ t2))"
    using assms g cs
    by (simp_all add: inject_tokens_def num_tokens_def split_chunks_eq Let_def interleave_def
          upt_rec sha256_digest_def n_def c_def)
  have lens: "length (take c data) = c" "length (take c (drop c data)) = c"
    "length (drop (2 * c) data) = n - 2 * c"
    using le by (simp_all add: n_def)
  note sl = interleaved_slices [OF lens(1) l(1) lens(2) l(2) lens(3) l(3), folded m]
  have r: "2 * int c + int (n - 2 * c) = int n"
    using le by simp
  have idc: "int (length data) div 3 = int c"
    by (simp add: c_def n_def zdiv_int)
  have loop: "extract_loop marked (int n) =
     ([take c data, take c (drop c data), drop (2 * c) data], [t0, t1, t2], int n + 48)"
    using sl r idc by (simp add: extract_loop_eq stride_tokens_def Let_def n_def algebra_simps)
  have "take c data @ take c (drop c data) @ drop (2 * c) data = data"
    by (metis append_take_drop_id drop_drop mult_2 add.commute)
  then show ?thesis
    using loop v
    by (simp add: verify_and_extract_def n_def sha256_digest_def compare_digest_def)
qed

text \<open>
  C9. For every byte string \<open>data\<close>, whatever the tokens drawn, extracting from what
  \<open>inject\<close> returns, with the verification value it returns and the length of \<open>data\<close>, gives
  back \<open>data\<close> and does not raise. And \<open>extract\<close> raises \<open>TamperDetected\<close> exactly when the
  hash of the tokens found at the fixed stride differs from the verification value supplied.
\<close>

theorem canary_round_trip_and_tamper_detection:
  "fst (verify_and_extract L (fst (fst (inject_tokens L data s)))
          (snd (fst (inject_tokens L data s))) (int (length data)) s2) = Inr data
   \<and> (fst (verify_and_extract L d v n s3) = Inl TamperDetected
        \<longleftrightarrow> Rep_digest32 (sha256 L (concat (stride_tokens d n))) \<noteq> v)"
proof
  show "fst (verify_and_extract L (fst (fst (inject_tokens L data s)))
          (snd (fst (inject_tokens L data s))) (int (length data)) s2) = Inr data"
    by (rule inject_then_extract [where s = s and ?s1.0 = "snd (inject_tokens L data s)"]) simp
  show "fst (verify_and_extract L d v n s3) = Inl TamperDetected
        \<longleftrightarrow> Rep_digest32 (sha256 L (concat (stride_tokens d n))) \<noteq> v"
    by (auto simp add: verify_and_extract_def extract_loop_eq Let_def sha256_digest_def
          compare_digest_def)
qed

section \<open>The keystream and the cipher\<close>

lemma keystream_loop_done:
  "\<not> length ks < len \<Longrightarrow> keystream_loop L key nonce len ks c s = (Inr ks, s)"
  by (subst keystream_loop.simps) simp

lemma keystream_loop_overflow:
  "length ks < len \<Longrightarrow> to_bytes8 c = Inl e \<Longrightarrow>
   keystream_loop L key nonce len ks c s = (Inl e, s)"
  by (subst keystream_loop.simps) simp

lemma keystream_loop_step:
  "length ks < len \<Longrightarrow> to_bytes8 c = Inr cb \<Longrightarrow>
   keystream_loop L key nonce len ks c s =
     keystream_loop L key nonce len (ks @ Rep_digest64 (hmac_sha512 L key (nonce @ cb))) (c + 1)
       (s\<lparr>calls := calls s @ [HmacSha512 key (nonce @ cb)]\<rparr>)"
  by (subst keystream_loop.simps) (simp add: hmac_digest_def)

lemma keystream_loop_fst:
  "fst (keystream_loop L key nonce len ks c s) = fst (keystream_loop L key nonce len ks c s')"
proof (induction L key nonce len ks c s arbitrary: s' rule: keystream_loop.induct)
  case (1 L key nonce len ks c s)
  show ?case
  proof (cases "length ks < len")
    case False
    then show ?thesis
      by (simp add: keystream_loop_done)
  next
    case True
    show ?thesis
    proof (cases "to_bytes8 c")
      case (Inl e)
      with True show ?thesis
        by (simp add: keystream_loop_overflow)
    next
      case (Inr cb)
      from "1.IH" [OF True Inr] show ?thesis
        by (simp add: keystream_loop_step [OF True Inr] hmac_digest_def)
    qed
  qed
qed

lemma keystream_loop_ok:
  "length ks = 64 * c \<Longrightarrow> len \<le> 64 * 2 ^ 64 \<Longrightarrow>
   \<exists>out. fst (keystream_loop L key nonce len ks c s) = Inr out"
proof (induction L key nonce len ks c s rule: keystream_loop.induct)
  case (1 L key nonce len ks c s)
  show ?case
  proof (cases "length ks < len")
    case False
    then show ?thesis
      by (simp add: keystream_loop_done)
  next
    case True
    with "1.prems" have "c < 2 ^ 64"
      by simp
    then obtain cb where cb: "to_bytes8 c = Inr cb"
      by (simp add: to_bytes8_def)
    have "length (ks @ fst (hmac_digest L key (nonce @ cb) s)) = 64 * (c + 1)"
      using "1.prems" by (simp add: hmac_digest_def)
    from "1.IH" [OF True cb this "1.prems"(2)] show ?thesis
      by (simp add: keystream_loop_step [OF True cb] hmac_digest_def)
  qed
qed

lemma keystream_loop_result:
  "fst (keystream_loop L key nonce len ks c s) = Inr out \<Longrightarrow> len \<le> length out"
proof (induction L key nonce len ks c s rule: keystream_loop.induct)
  case (1 L key nonce len ks c s)
  show ?case
  proof (cases "length ks < len")
    case False
    with "1.prems" show ?thesis
      by (simp add: keystream_loop_done)
  next
    case True
    show ?thesis
    proof (cases "to_bytes8 c")
      case (Inl e')
      with True "1.prems" show ?thesis
        by (simp add: keystream_loop_overflow)
    next
      case (Inr cb)
      from "1.prems" have
        "fst (keystream_loop L key nonce len (ks @ fst (hmac_digest L key (nonce @ cb) s)) (c + 1)
                   (snd (hmac_digest L key (nonce @ cb) s))) = Inr out"
        by (simp add: keystream_loop_step [OF True Inr] hmac_digest_def)
      from "1.IH" [OF True Inr this] show ?thesis .
    qed
  qed
qed

lemma keystream_loop_error:
  "fst (keystream_loop L key nonce len ks c s) = Inl e \<Longrightarrow> e = OverflowError"
proof (induction L key nonce len ks c s rule: keystream_loop.induct)
  case (1 L key nonce len ks c s)
  show ?case
  proof (cases "length ks < len")
    case False
    with "1.prems" show ?thesis
      by (simp add: keystream_loop_done)
  next
    case True
    show ?thesis
    proof (cases "to_bytes8 c")
      case (Inl e')
      with True "1.prems" show ?thesis
        by (simp add: keystream_loop_overflow to_bytes8_def split: if_splits)
    next
      case (Inr cb)
      from "1.prems" have
        "fst (keystream_loop L key nonce len (ks @ fst (hmac_digest L key (nonce @ cb) s)) (c + 1)
                   (snd (hmac_digest L key (nonce @ cb) s))) = Inl e"
        by (simp add: keystream_loop_step [OF True Inr] hmac_digest_def)
      from "1.IH" [OF True Inr this] show ?thesis .
    qed
  qed
qed

lemma keystream_loop_isl:
  "length ks = length ks' \<Longrightarrow>
   isl (fst (keystream_loop L key nonce len ks c s)) =
   isl (fst (keystream_loop L key' nonce' len ks' c s'))"
proof (induction L key nonce len ks c s arbitrary: ks' s' rule: keystream_loop.induct)
  case (1 L key nonce len ks c s)
  show ?case
  proof (cases "length ks < len")
    case False
    with "1.prems" show ?thesis
      by (simp add: keystream_loop_done)
  next
    case True
    then have True': "length ks' < len"
      using "1.prems" by simp
    show ?thesis
    proof (cases "to_bytes8 c")
      case (Inl e')
      with True True' show ?thesis
        by (simp add: keystream_loop_overflow)
    next
      case (Inr cb)
      let ?b = "fst (hmac_digest L key (nonce @ cb) s)"
      let ?b' = "Rep_digest64 (hmac_sha512 L key' (nonce' @ cb))"
      have len: "length (ks @ ?b) = length (ks' @ ?b')"
        using "1.prems" by (simp add: hmac_digest_def)
      from "1.IH" [OF True Inr len] show ?thesis
        by (simp add: keystream_loop_step [OF True Inr] keystream_loop_step [OF True' Inr]
              hmac_digest_def)
    qed
  qed
qed

lemma generate_keystream_unfold:
  "fst (generate_keystream L key nonce len s) =
     (case fst (keystream_loop L key nonce len [] 0 s) of
        Inl e \<Rightarrow> Inl e
      | Inr keystream \<Rightarrow> Inr (py_slice_to keystream (int len)))"
proof -
  obtain r s1 where r: "keystream_loop L key nonce len [] 0 s = (r, s1)"
    by (cases "keystream_loop L key nonce len [] 0 s")
  show ?thesis
    by (cases r) (simp_all add: generate_keystream_def r)
qed

lemma generate_keystream_fst:
  "fst (generate_keystream L key nonce len s) = fst (generate_keystream L key nonce len s')"
  by (simp only: generate_keystream_unfold keystream_loop_fst [of L key nonce len "[]" 0 s s'])

lemma generate_keystream_length:
  assumes "fst (generate_keystream L key nonce len s) = Inr ks"
  shows "length ks = len"
proof (cases "fst (keystream_loop L key nonce len [] 0 s)")
  case (Inl e)
  with assms show ?thesis
    by (simp add: generate_keystream_unfold)
next
  case (Inr out)
  then have "len \<le> length out"
    by (rule keystream_loop_result)
  moreover from assms Inr have "ks = py_slice_to out (int len)"
    by (simp add: generate_keystream_unfold)
  ultimately show ?thesis
    by (simp add: py_slice_to_def py_index_nonneg)
qed

lemma generate_keystream_ok:
  assumes "len \<le> 64 * 2 ^ 64"
  shows "\<exists>ks. fst (generate_keystream L key nonce len s) = Inr ks"
proof -
  have "length ([] :: bytes) = 64 * 0"
    by simp
  from keystream_loop_ok [OF this assms]
  obtain out where "fst (keystream_loop L key nonce len [] 0 s) = Inr out"
    by blast
  then show ?thesis
    by (simp add: generate_keystream_unfold)
qed

lemma generate_keystream_error:
  assumes "fst (generate_keystream L key nonce len s) = Inl e"
  shows "e = OverflowError"
proof (cases "fst (keystream_loop L key nonce len [] 0 s)")
  case (Inl e')
  then have "e' = OverflowError"
    by (rule keystream_loop_error)
  with assms Inl show ?thesis
    by (simp add: generate_keystream_unfold)
next
  case (Inr out)
  with assms show ?thesis
    by (simp add: generate_keystream_unfold)
qed

lemma generate_keystream_isl:
  "isl (fst (generate_keystream L key nonce len s)) =
   isl (fst (generate_keystream L key' nonce' len s'))"
proof -
  have "isl (fst (generate_keystream L k n len t)) = isl (fst (keystream_loop L k n len [] 0 t))"
    for k n t
    by (cases "fst (keystream_loop L k n len [] 0 t)") (simp_all add: generate_keystream_unfold)
  then show ?thesis
    using keystream_loop_isl [of "[]" "[]" L key nonce len 0 s key' nonce' s'] by simp
qed

lemma xor_enumerate:
  "length ks = length d \<Longrightarrow>
   map (\<lambda>(i, byte). byte XOR ks ! i) (enumerate 0 d) = map2 (XOR) d ks"
  by (rule nth_equalityI) (simp_all add: nth_enumerate_eq)

lemma aes_ctr_encrypt_eq:
  "fst (aes_ctr_encrypt L d key nonce s) =
     (case fst (generate_keystream L key nonce (length d) s) of
        Inl e \<Rightarrow> Inl e
      | Inr ks \<Rightarrow> Inr (map2 (XOR) d ks))"
proof (cases "fst (generate_keystream L key nonce (length d) s)")
  case (Inl e)
  then show ?thesis
    by (auto simp: aes_ctr_encrypt_def split: prod.splits sum.splits)
next
  case (Inr ks)
  then have "length ks = length d"
    by (rule generate_keystream_length)
  with Inr show ?thesis
    by (auto simp: aes_ctr_encrypt_def xor_enumerate split: prod.splits sum.splits)
qed

lemma map2_xor_cancel:
  fixes d ks :: bytes
  shows "length ks = length d \<Longrightarrow> map2 (XOR) (map2 (XOR) d ks) ks = d"
  by (rule nth_equalityI) (simp_all add: xor.assoc)


lemma map2_xor_inject:
  fixes d ks ks' :: bytes
  assumes "length ks = length d" "length ks' = length d"
  shows "map2 (XOR) d ks = map2 (XOR) d ks' \<longleftrightarrow> ks = ks'"
proof
  assume eq: "map2 (XOR) d ks = map2 (XOR) d ks'"
  show "ks = ks'"
  proof (rule nth_equalityI)
    show "length ks = length ks'" using assms by simp
    fix i assume i: "i < length ks"
    with assms eq have "map2 (XOR) d ks ! i = map2 (XOR) d ks' ! i" by simp
    with i assms have "d ! i XOR ks ! i = d ! i XOR ks' ! i" by simp
    then have "d ! i XOR (d ! i XOR ks ! i) = d ! i XOR (d ! i XOR ks' ! i)" by simp
    then show "ks ! i = ks' ! i" by (simp only: bit.xor_left_self)
  qed
qed simp

section \<open>Decryption\<close>

lemma decrypt_unfold:
  "decrypt L ct ek ak nonce tag s =
     (if tag \<noteq> Rep_digest64 (hmac_sha512 L ak ct)
      then (Inl AuthenticationFailure, s\<lparr>calls := calls s @ [HmacSha512 ak ct]\<rparr>)
      else aes_ctr_encrypt L ct ek nonce (s\<lparr>calls := calls s @ [HmacSha512 ak ct]\<rparr>))"
  by (auto simp: decrypt_def verify_hmac_def compute_hmac_def hmac_digest_def compare_digest_def
        aes_ctr_decrypt_def)

lemma decrypt_eq:
  "fst (decrypt L ct ek ak nonce tag s) =
     (if tag \<noteq> Rep_digest64 (hmac_sha512 L ak ct) then Inl AuthenticationFailure
      else case fst (generate_keystream L ek nonce (length ct) s) of
             Inl e \<Rightarrow> Inl e
           | Inr ks \<Rightarrow> Inr (map2 (XOR) ct ks))"
  by (simp add: decrypt_unfold aes_ctr_encrypt_eq
        generate_keystream_fst [of L ek nonce "length ct" "s\<lparr>calls := calls s @ [HmacSha512 ak ct]\<rparr>" s])

lemma sample_hmac: "Rep_digest64 (hmac_sha512 sample_lib key msg) = take 64 (key @ msg @ replicate 64 0)"
  by (simp add: sample_lib_def pad64.rep_eq)

text \<open>
  C2. \<open>decrypt\<close> raises \<open>AuthenticationFailure\<close> exactly when the tag differs from the keyed
  hash of the ciphertext under the authentication key; and when it does, the one library
  call it has made is that keyed hash: no keystream block has been computed and nothing
  has been decrypted.
\<close>

theorem decrypt_authenticates_first:
  "(fst (decrypt L ct ek ak nonce tag s) = Inl AuthenticationFailure
      \<longleftrightarrow> tag \<noteq> Rep_digest64 (hmac_sha512 L ak ct))
   \<and> (tag \<noteq> Rep_digest64 (hmac_sha512 L ak ct) \<longrightarrow>
        decrypt L ct ek ak nonce tag s =
          (Inl AuthenticationFailure, s\<lparr>calls := calls s @ [HmacSha512 ak ct]\<rparr>))"
proof (intro conjI impI)
  show "fst (decrypt L ct ek ak nonce tag s) = Inl AuthenticationFailure
      \<longleftrightarrow> tag \<noteq> Rep_digest64 (hmac_sha512 L ak ct)"
    using generate_keystream_error [of L ek nonce "length ct" s AuthenticationFailure]
    by (auto simp: decrypt_eq split: sum.splits)
next
  assume "tag \<noteq> Rep_digest64 (hmac_sha512 L ak ct)"
  then show "decrypt L ct ek ak nonce tag s =
          (Inl AuthenticationFailure, s\<lparr>calls := calls s @ [HmacSha512 ak ct]\<rparr>)"
    by (simp add: decrypt_unfold)
qed

theorem decrypt_authenticates_first_witness:
  "[] \<noteq> Rep_digest64 (hmac_sha512 sample_lib [2] [1, 2, 3])
   \<and> fst (decrypt sample_lib [1, 2, 3] [1] [2] [7] [] sample_sys) = Inl AuthenticationFailure
   \<and> calls (snd (decrypt sample_lib [1, 2, 3] [1] [2] [7] [] sample_sys)) = [HmacSha512 [2] [1, 2, 3]]"
proof -
  have ne: "[] \<noteq> Rep_digest64 (hmac_sha512 sample_lib [2] [1, 2, 3])"
    by (simp add: sample_hmac)
  with decrypt_authenticates_first [of sample_lib "[1, 2, 3]" "[1]" "[2]" "[7]" "[]" sample_sys]
  show ?thesis
    by (simp add: sample_sys_def)
qed

section \<open>The nonce\<close>

lemma decrypt_error_iff:
  "fst (decrypt L ct ek ak nonce tag s) = Inl e \<longleftrightarrow>
     (tag \<noteq> Rep_digest64 (hmac_sha512 L ak ct) \<and> e = AuthenticationFailure)
     \<or> (tag = Rep_digest64 (hmac_sha512 L ak ct) \<and> e = OverflowError
         \<and> isl (fst (generate_keystream L ek nonce (length ct) s)))"
  using generate_keystream_error [of L ek nonce "length ct" s]
  by (cases "fst (generate_keystream L ek nonce (length ct) s)") (auto simp: decrypt_eq)

lemma to_bytes8_0: "to_bytes8 0 = Inr [0, 0, 0, 0, 0, 0, 0, 0]"
  by (simp add: to_bytes8_def upt_rec)

lemma sample_keystream_3:
  "fst (generate_keystream sample_lib [k] [n] 3 s) = Inr [k, n, 0]"
  by (simp add: generate_keystream_unfold keystream_loop_step [OF _ to_bytes8_0]
        keystream_loop_done sample_hmac py_slice_to_def py_index_def)

lemma sample_keystream_0:
  "fst (generate_keystream sample_lib key nonce 0 s) = Inr []"
  by (simp add: generate_keystream_unfold keystream_loop_done py_slice_to_def)

text \<open>
  C10 (amended). The authentication of \<open>decrypt\<close> does not cover the nonce: \<open>decrypt\<close> raises
  with one nonce exactly when it raises with any other, and with the same error; changing the
  nonce of an authenticated ciphertext never raises \<open>AuthenticationFailure\<close>. What it returns is
  the ciphertext XORed with the keystream of the new nonce, which differs from the original
  plaintext exactly when the two keystreams differ on the length of the ciphertext (so not
  for an empty ciphertext).
\<close>

theorem decrypt_ignores_nonce_in_authentication:
  "(fst (decrypt L ct ek ak n1 tag s) = Inl e \<longleftrightarrow> fst (decrypt L ct ek ak n2 tag s') = Inl e)
   \<and> (tag = Rep_digest64 (hmac_sha512 L ak ct) \<longrightarrow>
        fst (decrypt L ct ek ak n2 tag s') \<noteq> Inl AuthenticationFailure)
   \<and> (tag = Rep_digest64 (hmac_sha512 L ak ct)
        \<and> fst (generate_keystream L ek n1 (length ct) s) = Inr ks1
        \<and> fst (generate_keystream L ek n2 (length ct) s') = Inr ks2 \<longrightarrow>
        fst (decrypt L ct ek ak n1 tag s) = Inr (map2 (XOR) ct ks1)
        \<and> fst (decrypt L ct ek ak n2 tag s') = Inr (map2 (XOR) ct ks2)
        \<and> (map2 (XOR) ct ks1 = map2 (XOR) ct ks2 \<longleftrightarrow> ks1 = ks2))"
proof (intro conjI impI)
  show "fst (decrypt L ct ek ak n1 tag s) = Inl e \<longleftrightarrow> fst (decrypt L ct ek ak n2 tag s') = Inl e"
    by (simp only: decrypt_error_iff generate_keystream_isl [of L ek n1 "length ct" s ek n2 s'])
next
  assume "tag = Rep_digest64 (hmac_sha512 L ak ct)"
  then show "fst (decrypt L ct ek ak n2 tag s') \<noteq> Inl AuthenticationFailure"
    by (simp add: decrypt_error_iff)
next
  assume a: "tag = Rep_digest64 (hmac_sha512 L ak ct)
        \<and> fst (generate_keystream L ek n1 (length ct) s) = Inr ks1
        \<and> fst (generate_keystream L ek n2 (length ct) s') = Inr ks2"
  then show "fst (decrypt L ct ek ak n1 tag s) = Inr (map2 (XOR) ct ks1)"
    and "fst (decrypt L ct ek ak n2 tag s') = Inr (map2 (XOR) ct ks2)"
    by (simp_all add: decrypt_eq)
  from a have "length ks1 = length ct" "length ks2 = length ct"
    by (auto dest: generate_keystream_length)
  then show "map2 (XOR) ct ks1 = map2 (XOR) ct ks2 \<longleftrightarrow> ks1 = ks2"
    by (rule map2_xor_inject)
qed

theorem decrypt_ignores_nonce_in_authentication_witness:
  "fst (decrypt sample_lib [1, 2, 3] [1] [2] [7] (Rep_digest64 (hmac_sha512 sample_lib [2] [1, 2, 3]))
        sample_sys) = Inr [0, 5, 3]
   \<and> fst (decrypt sample_lib [1, 2, 3] [1] [2] [8] (Rep_digest64 (hmac_sha512 sample_lib [2] [1, 2, 3]))
        sample_sys) = Inr [0, 10, 3]"
proof -
  have len: "length [1, 2, 3 :: byte] = 3"
    by simp
  have k1: "fst (generate_keystream sample_lib [1] [7] (length [1, 2, 3 :: byte]) sample_sys)
      = Inr [1, 7, 0]"
    and k2: "fst (generate_keystream sample_lib [1] [8] (length [1, 2, 3 :: byte]) sample_sys)
      = Inr [1, 8, 0]"
    by (simp_all only: len sample_keystream_3)
  from decrypt_ignores_nonce_in_authentication
    [of sample_lib "[1, 2, 3]" "[1]" "[2]" "[7]"
        "Rep_digest64 (hmac_sha512 sample_lib [2] [1, 2, 3])" sample_sys OverflowError "[8]"
        sample_sys "[1, 7, 0]" "[1, 8, 0]"] k1 k2
  show ?thesis
    by simp
qed

text \<open>
  The claim as stated, that another nonce gives a different plaintext, fails on the empty
  ciphertext: both nonces give the empty plaintext.
\<close>

theorem decrypt_nonce_same_plaintext:
  "[0] \<noteq> [9 :: byte]
   \<and> fst (decrypt sample_lib [] [1] [2] [0] (Rep_digest64 (hmac_sha512 sample_lib [2] []))
        sample_sys) = Inr []
   \<and> fst (decrypt sample_lib [] [1] [2] [9] (Rep_digest64 (hmac_sha512 sample_lib [2] []))
        sample_sys) = Inr []"
  by (simp add: decrypt_eq sample_keystream_0)

section \<open>Fragment B and the key derivation\<close>

lemma py_slice_to_nat: "py_slice_to xs (int n) = take n xs"
  by (cases "n \<le> length xs") (simp_all add: py_slice_to_def py_index_nonneg min_def)

lemma py_slice_to_numeral: "py_slice_to xs (numeral k) = take (numeral k) xs"
  using py_slice_to_nat [of xs "numeral k"] by simp

lemma create_fragment_b_eq:
  "create_fragment_b L A k1 k2 s =
     (take 32 (Rep_digest64 (sha512 L
        (Rep_digest64 (sha512 L A) @ Rep_digest64 (sha512 L k1) @ Rep_digest64 (sha512 L k2)))),
      s\<lparr>calls := calls s @ [Sha512 A, Sha512 k1, Sha512 k2,
         Sha512 (Rep_digest64 (sha512 L A) @ Rep_digest64 (sha512 L k1) @ Rep_digest64 (sha512 L k2))]\<rparr>)"
  by (simp add: create_fragment_b_def sha512_digest_def fragment_b_size_def py_slice_to_numeral Let_def)

text \<open>
  C7. \<open>bindFragmentB\<close> is a function of its inputs alone: its result is the first 32 bytes
  of the hash of the three hashes of Fragment A and the two keys, whatever the state it runs
  in, and is 32 bytes long for every input; and \<open>verifyBinding\<close> returns true exactly when
  Fragment B is that value.
\<close>

theorem fragment_b_binding:
  "fst (create_fragment_b L A k1 k2 s) =
     take 32 (Rep_digest64 (sha512 L
        (Rep_digest64 (sha512 L A) @ Rep_digest64 (sha512 L k1) @ Rep_digest64 (sha512 L k2))))
   \<and> fst (create_fragment_b L A k1 k2 s) = fst (create_fragment_b L A k1 k2 s')
   \<and> length (fst (create_fragment_b L A k1 k2 s)) = 32
   \<and> (fst (verify_fragment_binding L A B k1 k2 s) \<longleftrightarrow>
        B = take 32 (Rep_digest64 (sha512 L
          (Rep_digest64 (sha512 L A) @ Rep_digest64 (sha512 L k1) @ Rep_digest64 (sha512 L k2)))))"
  by (simp add: create_fragment_b_eq verify_fragment_binding_def)

lemma hkdf_derive_eq:
  "hkdf_derive L seed salt info s =
     (Rep_digest32 (sha256 L (Rep_digest32 (sha256 L (salt @ seed)) @ info @ [0x01])),
      s\<lparr>calls := calls s @ [Sha256 (salt @ seed),
         Sha256 (Rep_digest32 (sha256 L (salt @ seed)) @ info @ [0x01])]\<rparr>)"
  by (simp add: hkdf_derive_def sha256_digest_def key_size_def py_slice_to_numeral Let_def)

text \<open>
  C8. The derived key is the first 32 bytes of the hash of the extracted key followed by the
  context and the byte 1, where the extracted key is the hash of the salt followed by the
  seed; it does not depend on the state, and is 32 bytes long. The two keys of a pair are
  derived in this way under the two salts \<open>ic_salt\<close> and \<open>phone_salt\<close>, which differ.
\<close>

theorem hkdf_extract_then_expand:
  "fst (hkdf_derive L seed salt info s) =
     take 32 (Rep_digest32 (sha256 L (Rep_digest32 (sha256 L (salt @ seed)) @ info @ [0x01])))
   \<and> fst (hkdf_derive L seed salt info s) = fst (hkdf_derive L seed salt info s')
   \<and> length (fst (hkdf_derive L seed salt info s)) = 32
   \<and> fst (derive_keys_from_public L card_public_key phone_public_key did s) =
       (fst (hkdf_derive L card_public_key ic_salt (encode_utf8 did) s),
        fst (hkdf_derive L phone_public_key phone_salt (encode_utf8 did) s))
   \<and> ic_salt \<noteq> phone_salt"
  by (simp add: hkdf_derive_eq derive_keys_from_public_def ic_salt_def phone_salt_def
        encode_utf8_def)

text \<open>
  C5 (amended). The derivation does not check its seed: for an empty seed it returns, as for
  any other, the 32-byte key that is the hash of the hash of the salt followed by the
  context and the byte 1; and the pair derived from two empty public keys is a pair of two
  32-byte keys.
\<close>

theorem hkdf_derive_empty_seed:
  "fst (hkdf_derive L [] salt info s) =
     Rep_digest32 (sha256 L (Rep_digest32 (sha256 L salt) @ info @ [0x01]))
   \<and> length (fst (hkdf_derive L [] salt info s)) = 32
   \<and> length (fst (fst (derive_keys_from_public L [] [] did s))) = 32
   \<and> length (snd (fst (derive_keys_from_public L [] [] did s))) = 32"
  by (simp add: hkdf_derive_eq derive_keys_from_public_def)

text \<open>The claim as stated fails: on the empty seed the derivation returns a key.\<close>

theorem hkdf_derive_empty_seed_returns_key:
  "fst (hkdf_derive sample_lib [] [0x53] [0x64] sample_sys) =
     0x53 # replicate 31 0
   \<and> length (fst (hkdf_derive sample_lib [] [0x53] [0x64] sample_sys)) = 32"
  by (simp add: hkdf_derive_eq sample_lib_def pad32.rep_eq)

end
